theory Spec2Isabelle
  imports Complex_Main
begin

section \<open>JavaScript data values\<close>

text \<open>
  The values the two scripts store and pass around are plain data: numbers, strings,
  booleans, \<open>undefined\<close>, arrays and object literals. Every finite double is a rational
  number, so a number is a rational or one of the three special doubles. An object is the
  list of its own properties in insertion order; a property whose value is \<open>undefined\<close> is
  still a property of the object (\<open>JUndefined\<close> is a value like any other). Equality of
  two \<open>jsval\<close>s implies that the JavaScript values are deep-equal. Functions are not data:
  they occur only as completion callbacks (see \<open>callback\<close> below).
\<close>

datatype jsnum = NaN | PInf | NInf | Num rat

datatype jsval =
    JUndefined
  | JNull
  | JBool bool
  | JNum jsnum
  | JStr string
  | JArr "jsval list"
  | JObj "(string \<times> jsval) list"

datatype error = TypeError | NotFoundError | DataError | TransactionAborted

text \<open>\<open>o.hasOwnProperty(name)\<close> on an object literal.\<close>

fun hasOwnProperty :: "jsval \<Rightarrow> string \<Rightarrow> bool" where
  "hasOwnProperty (JObj ps) name = (name \<in> fst ` set ps)"
| "hasOwnProperty _ name = False"

text \<open>
  The property read \<open>v.name\<close>, for a name that no prototype defines (the scripts read
  \<open>id\<close>, \<open>state\<close> and \<open>moves\<close>): a missing property reads as \<open>undefined\<close>, a read from
  \<open>undefined\<close> or \<open>null\<close> throws a TypeError.
\<close>

fun get_prop :: "jsval \<Rightarrow> string \<Rightarrow> error + jsval" where
  "get_prop JUndefined name = Inl TypeError"
| "get_prop JNull name = Inl TypeError"
| "get_prop (JObj ps) name = Inr (case map_of ps name of None \<Rightarrow> JUndefined | Some v \<Rightarrow> v)"
| "get_prop _ name = Inr JUndefined"

text \<open>The assignment \<open>target[name] = v\<close> on the property list of an object.\<close>

fun set_prop :: "string \<Rightarrow> jsval \<Rightarrow> (string \<times> jsval) list \<Rightarrow> (string \<times> jsval) list" where
  "set_prop name v [] = [(name, v)]"
| "set_prop name v ((n, x) # ps) =
     (if n = name then (n, v) # ps else (n, x) # set_prop name v ps)"

text \<open>
  \<open>jQuery.extend(target, options)\<close> of the jQuery library, on two plain objects given by
  their properties (the script calls it once, on \<open>{}\<close> and \<open>base_state\<close>): the shallow
  merge walks the properties of \<open>options\<close> and assigns each to \<open>target\<close>, except that it
  skips the name \<open>__proto__\<close> and does not bring in a property whose value is
  \<open>undefined\<close>; the result is \<open>target\<close>.
\<close>

fun extend_step :: "(string \<times> jsval) list \<Rightarrow> (string \<times> jsval) \<Rightarrow> (string \<times> jsval) list" where
  "extend_step target (name, copy) =
     (if name = ''__proto__'' then target
      else if copy \<noteq> JUndefined then set_prop name copy target
      else target)"

definition jQuery_extend ::
    "(string \<times> jsval) list \<Rightarrow> (string \<times> jsval) list \<Rightarrow> (string \<times> jsval) list" where
  "jQuery_extend target options = foldl extend_step target options"

section \<open>The browser's IndexedDB\<close>

text \<open>
  An object store with in-line keys: every record is stored under the key found at
  \<open>keyPath\<close> in the record itself, so the store is the list of its records. An index
  has a key path of its own and may be unique. A database is its object stores by name,
  and \<open>indexedDB\<close> (a field of \<open>world\<close> below) is the databases of the origin by name.
\<close>

record idb_index =
  ix_keyPath :: string
  ix_unique :: bool

record objectStore =
  keyPath :: string
  indexes :: "(string \<times> idb_index) list"
  records :: "jsval list"

type_synonym database = "string \<rightharpoonup> objectStore"

text \<open>
  A valid key is a number other than NaN, a string, or an array of valid keys (dates and
  binary keys do not occur in the data model).
\<close>

fun valid_key :: "jsval \<Rightarrow> bool" where
  "valid_key (JNum n) = (n \<noteq> NaN)"
| "valid_key (JStr s) = True"
| "valid_key (JArr ks) = list_all valid_key ks"
| "valid_key _ = False"

text \<open>Evaluating a key path on a value: \<open>None\<close> when it yields no valid key.\<close>

definition key_of :: "string \<Rightarrow> jsval \<Rightarrow> jsval option" where
  "key_of kp v =
     (case get_prop v kp of
        Inl e \<Rightarrow> None
      | Inr k \<Rightarrow> if valid_key k then Some k else None)"

definition createObjectStore :: "string \<Rightarrow> objectStore" where
  "createObjectStore kp = \<lparr>keyPath = kp, indexes = [], records = []\<rparr>"

definition createIndex :: "string \<Rightarrow> string \<Rightarrow> bool \<Rightarrow> objectStore \<Rightarrow> objectStore" where
  "createIndex name kp u st =
     st\<lparr>indexes := indexes st @ [(name, \<lparr>ix_keyPath = kp, ix_unique = u\<rparr>)]\<rparr>"

text \<open>The record with primary key \<open>k\<close> is replaced; without one, \<open>v\<close> is added.\<close>

fun put_record :: "string \<Rightarrow> jsval \<Rightarrow> jsval \<Rightarrow> jsval list \<Rightarrow> jsval list" where
  "put_record kp k v [] = [v]"
| "put_record kp k v (r # rs) =
     (if key_of kp r = Some k then v # rs else r # put_record kp k v rs)"

text \<open>
  A unique index refuses \<open>v\<close> when another record (one with a different primary key)
  already has \<open>v\<close>'s key in that index.
\<close>

definition unique_violation :: "objectStore \<Rightarrow> jsval \<Rightarrow> jsval \<Rightarrow> bool" where
  "unique_violation st k v =
     list_ex (\<lambda>(name, ix). ix_unique ix \<and>
        (case key_of (ix_keyPath ix) v of
           None \<Rightarrow> False
         | Some ik \<Rightarrow> list_ex (\<lambda>r. key_of (keyPath st) r \<noteq> Some k \<and>
                                 key_of (ix_keyPath ix) r = Some ik) (records st)))
       (indexes st)"

text \<open>
  \<open>store.put(v)\<close>: throws a DataError when the key path yields no valid key; a violated
  unique index fails the request and aborts the transaction, which then never completes.
  What is stored is a structured clone of \<open>v\<close>: every \<open>jsval\<close> can be cloned, and the
  clone of a data value is equal to it.
\<close>

definition put :: "objectStore \<Rightarrow> jsval \<Rightarrow> error + objectStore" where
  "put st v =
     (case key_of (keyPath st) v of
        None \<Rightarrow> Inl DataError
      | Some k \<Rightarrow>
          if unique_violation st k v then Inl TransactionAborted
          else Inr (st\<lparr>records := put_record (keyPath st) k v (records st)\<rparr>))"

text \<open>\<open>store.index(name)\<close> throws a NotFoundError when the store has no such index.\<close>

definition index :: "objectStore \<Rightarrow> string \<Rightarrow> error + idb_index" where
  "index st name =
     (case map_of (indexes st) name of None \<Rightarrow> Inl NotFoundError | Some ix \<Rightarrow> Inr ix)"

text \<open>
  \<open>index.get(k)\<close>: the record whose key in the index is \<open>k\<close>, \<open>undefined\<close> without one.
  (With several matches the real store answers the one of least primary key; the list is
  in insertion order. The two agree whenever at most one record matches, as for every index
  on the store's own key path.)
\<close>

definition index_get :: "objectStore \<Rightarrow> idb_index \<Rightarrow> jsval \<Rightarrow> jsval" where
  "index_get st ix k =
     (case find (\<lambda>r. key_of (ix_keyPath ix) r = Some k) (records st) of
        None \<Rightarrow> JUndefined
      | Some r \<Rightarrow> r)"

section \<open>The session state registry (state_handler.js)\<close>

text \<open>
  A completion callback is what the caller passed: nothing (\<open>undefined\<close>), a function
  (named by a number; its body belongs to the caller and is not run here, the call is
  recorded), or some other value that is not callable.
\<close>

datatype callback = CbUndefined | CbFunction nat | CbOther

datatype event = ConsoleLog jsval | ConsoleLogCb callback | Invoke nat

text \<open>
  The module's three variables, the databases of the origin, and the calls the module has
  made to the console and to callbacks, oldest first. Every operation of the store is
  asynchronous and ends in a handler (\<open>onsuccess\<close>, \<open>oncomplete\<close>); an operation is
  modelled by its effect followed by its handler, with nothing else running in between
  (the script does no locking, and overlapping operations are outside this model).
\<close>

record world =
  base_state :: jsval
  states :: jsval
  temp_file :: jsval
  indexedDB :: "string \<rightharpoonup> database"
  trace :: "event list"

type_synonym outcome = "world \<times> error option"

definition emit :: "event \<Rightarrow> world \<Rightarrow> world" where
  "emit e w = w\<lparr>trace := trace w @ [e]\<rparr>"

text \<open>The call \<open>callback()\<close>: a TypeError unless the value is a function.\<close>

fun invoke :: "callback \<Rightarrow> world \<Rightarrow> outcome" where
  "invoke (CbFunction f) w = (emit (Invoke f) w, None)"
| "invoke _ w = (w, Some TypeError)"

text \<open>
  Module initialisation: \<open>base_state\<close> is the object literal, \<open>states\<close> is the one-element
  array holding \<open>jQuery.extend({}, base_state)\<close>. The databases of the origin are not
  touched.
\<close>

definition module_init :: "(string \<rightharpoonup> database) \<Rightarrow> world" where
  "module_init idb =
     (let base_state =
        [(''states'', JArr []),
         (''environments'', JArr []),
         (''moves'', JArr []),
         (''out'', JStr []),
         (''index'', JNum (Num 0)),
         (''expr_i'', JNum (Num 0)),
         (''start'', JNum (Num 0)),
         (''end'', JNum (Num 0)),
         (''roots'', JArr [JStr ''demo'']),
         (''globalFrameID'', JNum (Num (- 1))),
         (''editor_open'', JBool False),
         (''sub_open'', JBool False),
         (''env_open'', JBool False),
         (''turtle_open'', JBool False),
         (''out_open'', JBool False),
         (''tests_open'', JBool False),
         (''test_results'', JUndefined),
         (''file_name'', JStr [])]
      in \<lparr>base_state = JObj base_state,
          states = JArr [JObj (jQuery_extend [] base_state)],
          temp_file = JStr ''<temporary>'',
          indexedDB = idb,
          trace = []\<rparr>)"

text \<open>
  \<open>request.onupgradeneeded\<close>: runs when the database did not exist; creates the object
  store \<open>state\<close> with key path \<open>id\<close> and the unique index \<open>by_id\<close> on \<open>id\<close>.
\<close>

definition onupgradeneeded :: "database \<Rightarrow> database" where
  "onupgradeneeded d =
     (let store = createObjectStore ''id'';
          store = createIndex ''by_id'' ''id'' True store
      in d(''state'' \<mapsto> store))"

text \<open>
  \<open>indexedDB.open("state")\<close> with the handler above: the database is created when
  there is none, and only then \<open>onupgradeneeded\<close> runs. The request is taken to succeed
  (the script sets no \<open>onerror\<close>; when the browser refuses the request nothing further
  happens).
\<close>

definition open_request :: "world \<Rightarrow> world" where
  "open_request w =
     (case indexedDB w ''state'' of
        None \<Rightarrow> w\<lparr>indexedDB := (indexedDB w)(''state'' \<mapsto> onupgradeneeded Map.empty)\<rparr>
      | Some d \<Rightarrow> w)"

text \<open>
  \<open>db(callback)\<close>: \<open>request.onsuccess\<close> passes the connection to \<open>callback\<close>. The
  connection (\<open>conn\<close> below, \<open>db\<close> in the script) is modelled by the name of its
  database; \<open>db.close()\<close> has no effect on the data.
\<close>

definition db :: "(string \<Rightarrow> world \<Rightarrow> outcome) \<Rightarrow> world \<Rightarrow> outcome" where
  "db callback w = callback ''state'' (open_request w)"

text \<open>
  \<open>db.transaction(name, mode).objectStore(name)\<close>: a NotFoundError when the database has
  no such object store.
\<close>

definition transaction :: "string \<Rightarrow> string \<Rightarrow> world \<Rightarrow> error + objectStore" where
  "transaction conn name w =
     (case indexedDB w conn of
        None \<Rightarrow> Inl NotFoundError
      | Some d \<Rightarrow> (case d name of None \<Rightarrow> Inl NotFoundError | Some st \<Rightarrow> Inr st))"

text \<open>The transaction commits: the object store as written replaces the old one.\<close>

definition commit :: "string \<Rightarrow> string \<Rightarrow> objectStore \<Rightarrow> world \<Rightarrow> world" where
  "commit conn name st w =
     (case indexedDB w conn of
        None \<Rightarrow> w
      | Some d \<Rightarrow> w\<lparr>indexedDB := (indexedDB w)(conn \<mapsto> d(name \<mapsto> st))\<rparr>)"

text \<open>\<open>tx.oncomplete\<close> of \<open>store\<close>.\<close>

definition store_oncomplete :: "callback \<Rightarrow> world \<Rightarrow> outcome" where
  "store_oncomplete callback w =
     (let w1 = emit (ConsoleLog (JStr ''Save complete!'')) w
      in if callback \<noteq> CbUndefined
         then invoke callback (emit (ConsoleLogCb callback) w1)
         else (w1, None))"

definition store :: "string \<Rightarrow> callback \<Rightarrow> world \<Rightarrow> outcome" where
  "store conn callback w =
     (case transaction conn ''state'' w of
        Inl e \<Rightarrow> (w, Some e)
      | Inr st \<Rightarrow>
          (case put st (JObj [(''id'', JNum (Num 1)), (''state'', states w)]) of
             Inl e \<Rightarrow> (w, Some e)
           | Inr st' \<Rightarrow> store_oncomplete callback (commit conn ''state'' st' w)))"

text \<open>\<open>request.onsuccess\<close> of \<open>load\<close>, with \<open>matching = request.result\<close>.\<close>

definition load_onsuccess :: "jsval \<Rightarrow> callback \<Rightarrow> world \<Rightarrow> outcome" where
  "load_onsuccess matching callback w =
     (if matching \<noteq> JUndefined
      then (case get_prop matching ''state'' of
              Inl e \<Rightarrow> (w, Some e)
            | Inr s \<Rightarrow> invoke callback (emit (ConsoleLog s) (w\<lparr>states := s\<rparr>)))
      else invoke callback w)"

definition load :: "string \<Rightarrow> callback \<Rightarrow> world \<Rightarrow> outcome" where
  "load conn callback w =
     (case transaction conn ''state'' w of
        Inl e \<Rightarrow> (w, Some e)
      | Inr st \<Rightarrow>
          (case index st ''by_id'' of
             Inl e \<Rightarrow> (w, Some e)
           | Inr ix \<Rightarrow> load_onsuccess (index_get st ix (JNum (Num 1))) callback w))"

definition loadState :: "callback \<Rightarrow> world \<Rightarrow> outcome" where
  "loadState callback w = db (\<lambda>conn. load conn callback) w"

definition saveState :: "callback \<Rightarrow> world \<Rightarrow> outcome" where
  "saveState callback w =
     db (\<lambda>conn. store conn callback) (emit (ConsoleLog (JStr ''Starting save!'')) w)"

section \<open>The turtle graphics panel\<close>

text \<open>
  The panel talks to three collaborators that are not part of it: the SVG element
  (\<open>svg.clear()\<close>, \<open>svg.size(w, h)\<close>), the pan/zoom library bound to that element
  (\<open>svgPanZoom(rawSVG)\<close> and its methods) and the editor (\<open>make\<close>, \<open>draw\<close>,
  \<open>request_update\<close>). A handler is modelled by the calls it makes to them, in order,
  with the arguments it passes; what \<open>getZoom()\<close> and \<open>getPan()\<close> answer is an input
  of the handler.
\<close>

record point =
  pan_x :: jsnum
  pan_y :: jsnum

record options =
  fit :: bool
  zoomEnabled :: bool
  center :: bool
  controlIconsEnabled :: bool

datatype call =
    Call_html
  | Call_make string nat
  | Call_size jsval jsval
  | Call_clear
  | Call_draw jsval
  | Call_request_update
  | Call_svgPanZoom options
  | Call_getZoom
  | Call_getPan
  | Call_destroy
  | Call_reset
  | Call_zoom "jsnum option"
  | Call_pan "point option"

text \<open>What the pan/zoom controller of the SVG element answers when asked.\<close>

record viewport =
  getZoom :: jsnum
  getPan :: point

text \<open>The container of the panel, with its current dimensions.\<close>

record container =
  width :: jsval
  height :: jsval

record panel =
  ready :: bool
  calls :: "call list"

definition perform :: "call \<Rightarrow> panel \<Rightarrow> panel" where
  "perform c p = p\<lparr>calls := calls p @ [c]\<rparr>"

text \<open>
  The global \<open>isNaN\<close> on the variable \<open>zoom\<close>, which is \<open>undefined\<close> (\<open>None\<close>) or a
  number: \<open>undefined\<close> converts to NaN.
\<close>

fun isNaN :: "jsnum option \<Rightarrow> bool" where
  "isNaN None = True"
| "isNaN (Some n) = (n = NaN)"

text \<open>The decimal numeral of an array index, as a property name.\<close>

fun decimal :: "nat \<Rightarrow> string" where
  "decimal n =
     (if n < 10 then [char_of (48 + n)]
      else decimal (n div 10) @ [char_of (48 + n mod 10)])"

text \<open>
  The element read \<open>v[i]\<close>: out of range it is \<open>undefined\<close>, on \<open>undefined\<close> or \<open>null\<close>
  it throws a TypeError.
\<close>

fun js_index :: "jsval \<Rightarrow> nat \<Rightarrow> error + jsval" where
  "js_index JUndefined i = Inl TypeError"
| "js_index JNull i = Inl TypeError"
| "js_index (JArr xs) i = Inr (if i < length xs then xs ! i else JUndefined)"
| "js_index (JStr s) i = Inr (if i < length s then JStr [s ! i] else JUndefined)"
| "js_index (JObj ps) i = Inr (case map_of ps (decimal i) of None \<Rightarrow> JUndefined | Some v \<Rightarrow> v)"
| "js_index _ i = Inr JUndefined"

text \<open>
  The component function passed to \<open>registerComponent\<close>: it fills the container, calls
  \<open>make\<close>, sizes the SVG to the container and starts with \<open>ready = false\<close>.
\<close>

definition register :: "container \<Rightarrow> nat \<Rightarrow> panel" where
  "register cont cid =
     \<lparr>ready = False,
      calls = [Call_html, Call_make ''turtle_graphics'' cid,
               Call_size (width cont) (height cont)]\<rparr>"

text \<open>
  The handler of the \<open>update\<close> event. \<open>sts\<close> is the value of the registry's \<open>states\<close>
  when the event fires, \<open>cid\<close> is \<open>componentState.id\<close>.
\<close>

definition on_update :: "nat \<Rightarrow> jsval \<Rightarrow> viewport \<Rightarrow> panel \<Rightarrow> panel \<times> error option" where
  "on_update cid sts vp p =
     (let (zoom, pan, p) =
            (if ready p
             then (Some (getZoom vp), Some (getPan vp),
                   perform Call_destroy (perform Call_getPan (perform Call_getZoom p)))
             else (None, None, p));
          p = perform Call_clear p;
          p = p\<lparr>ready := True\<rparr>
      in case js_index sts cid of
           Inl e \<Rightarrow> (p, Some e)
         | Inr s \<Rightarrow>
             (case get_prop s ''moves'' of
                Inl e \<Rightarrow> (p, Some e)
              | Inr moves \<Rightarrow>
                  (let p = perform (Call_draw moves) p;
                       p = perform (Call_svgPanZoom \<lparr>fit = False, zoomEnabled = True,
                              center = False, controlIconsEnabled = True\<rparr>) p
                   in if isNaN zoom
                      then (perform Call_reset p, None)
                      else (perform (Call_pan pan) (perform (Call_zoom zoom) p), None))))"

text \<open>The handler of the \<open>reset\<close> event.\<close>

definition on_reset :: "panel \<Rightarrow> panel" where
  "on_reset p = perform Call_reset p"

text \<open>The handler of the container's \<open>resize\<close> event.\<close>

definition on_resize :: "container \<Rightarrow> viewport \<Rightarrow> panel \<Rightarrow> panel" where
  "on_resize cont vp p =
     (let (zoom, pan, p) =
            (if ready p
             then (Some (getZoom vp), Some (getPan vp),
                   perform Call_destroy (perform Call_getPan (perform Call_getZoom p)))
             else (None, None, p));
          p = perform (Call_size (width cont) (height cont)) p;
          p = perform (Call_svgPanZoom \<lparr>fit = False, zoomEnabled = True,
                 center = False, controlIconsEnabled = True\<rparr>) p;
          p = (if isNaN zoom
               then perform Call_reset p
               else perform (Call_pan pan) (perform (Call_zoom zoom) p))
      in p\<lparr>ready := True\<rparr>)"

text \<open>The handler of the container's \<open>shown\<close> event.\<close>

definition on_shown :: "panel \<Rightarrow> panel" where
  "on_shown p = perform Call_request_update p"

section \<open>Notions used to state the properties\<close>

text \<open>The first session state, \<open>states[0]\<close> (\<open>undefined\<close> when the read throws).\<close>

definition first_state :: "world \<Rightarrow> jsval" where
  "first_state w = (case js_index (states w) 0 of Inl e \<Rightarrow> JUndefined | Inr v \<Rightarrow> v)"

text \<open>The record that \<open>store\<close> writes for a value \<open>s\<close> of \<open>states\<close>.\<close>

definition blob :: "jsval \<Rightarrow> jsval" where
  "blob s = JObj [(''id'', JNum (Num 1)), (''state'', s)]"

text \<open>
  The object store as \<open>onupgradeneeded\<close> creates it, holding any records under distinct
  keys.
\<close>

definition state_store_ok :: "objectStore \<Rightarrow> bool" where
  "state_store_ok st =
     (keyPath st = ''id'' \<and>
      indexes st = [(''by_id'', \<lparr>ix_keyPath = ''id'', ix_unique = True\<rparr>)] \<and>
      distinct (map (key_of ''id'') (records st)))"

text \<open>
  The origin has no database \<open>state\<close> yet, or has the one this module creates (no other
  code has created a database of that name with another layout).
\<close>

definition state_db_ok :: "world \<Rightarrow> bool" where
  "state_db_ok w =
     (case indexedDB w ''state'' of
        None \<Rightarrow> True
      | Some d \<Rightarrow> (case d ''state'' of None \<Rightarrow> False | Some st \<Rightarrow> state_store_ok st))"

text \<open>
  The persisted records under the fixed key 1, in object store \<open>state\<close> of database
  \<open>state\<close>: the empty list when nothing has been saved.
\<close>

definition persisted :: "world \<Rightarrow> jsval list" where
  "persisted w =
     (case indexedDB w ''state'' of
        None \<Rightarrow> []
      | Some d \<Rightarrow>
          (case d ''state'' of
             None \<Rightarrow> []
           | Some st \<Rightarrow> filter (\<lambda>r. key_of (keyPath st) r = Some (JNum (Num 1))) (records st)))"

text \<open>
  The value \<open>load\<close> leaves in \<open>states\<close>: the \<open>state\<close> property of the persisted
  record when there is one, the in-memory value otherwise.
\<close>

definition restored :: "world \<Rightarrow> jsval" where
  "restored w =
     (case persisted w of
        [] \<Rightarrow> states w
      | r # rs \<Rightarrow> (case get_prop r ''state'' of Inl e \<Rightarrow> states w | Inr s \<Rightarrow> s))"

text \<open>The calls a handler has added to those of the panel \<open>p\<close> it started from.\<close>

definition new_calls :: "panel \<Rightarrow> panel \<Rightarrow> call list" where
  "new_calls p p' = drop (length (calls p)) (calls p')"

text \<open>The calls that set the framing of the viewport: \<open>reset\<close>, \<open>zoom\<close> and \<open>pan\<close>.\<close>

fun sets_framing :: "call \<Rightarrow> bool" where
  "sets_framing Call_reset = True"
| "sets_framing (Call_zoom z) = True"
| "sets_framing (Call_pan pn) = True"
| "sets_framing _ = False"

section \<open>Facts about the object store\<close>

lemma set_put_record: "set (put_record kp k v rs) \<subseteq> insert v (set rs)"
  by (induction rs) auto

lemma keys_put_record:
  "key_of kp v = Some k \<Longrightarrow>
   set (map (key_of kp) (put_record kp k v rs)) = insert (Some k) (set (map (key_of kp) rs))"
  by (induction rs) auto

lemma distinct_put_record:
  "key_of kp v = Some k \<Longrightarrow> distinct (map (key_of kp) rs) \<Longrightarrow>
   distinct (map (key_of kp) (put_record kp k v rs))"
proof (induction rs)
  case Nil
  then show ?case by simp
next
  case (Cons r rs)
  show ?case
  proof (cases "key_of kp r = Some k")
    case True
    with Cons.prems show ?thesis by simp
  next
    case False
    from Cons have d: "distinct (map (key_of kp) (put_record kp k v rs))" by simp
    from Cons.prems have "key_of kp r \<notin> set (map (key_of kp) rs)" by simp
    with False Cons.prems(1) have "key_of kp r \<notin> set (map (key_of kp) (put_record kp k v rs))"
      by (simp only: keys_put_record) auto
    with d False show ?thesis by simp
  qed
qed

lemma filter_put_record:
  "key_of kp v = Some k \<Longrightarrow> distinct (map (key_of kp) rs) \<Longrightarrow>
   filter (\<lambda>r. key_of kp r = Some k) (put_record kp k v rs) = [v]"
proof (induction rs)
  case Nil
  then show ?case by simp
next
  case (Cons r rs)
  show ?case
  proof (cases "key_of kp r = Some k")
    case True
    with Cons.prems have "Some k \<notin> set (map (key_of kp) rs)" by simp
    then have "filter (\<lambda>r. key_of kp r = Some k) rs = []"
      by (fastforce simp: filter_empty_conv image_iff)
    with True Cons.prems show ?thesis by simp
  next
    case False
    with Cons show ?thesis by simp
  qed
qed

lemma put_record_idem:
  "key_of kp v = Some k \<Longrightarrow> put_record kp k v (put_record kp k v rs) = put_record kp k v rs"
  by (induction rs) auto

lemma key_of_blob: "key_of ''id'' (blob s) = Some (JNum (Num 1))"
  by (simp add: key_of_def blob_def)

lemma unique_violation_iff:
  "unique_violation st k v \<longleftrightarrow>
     (\<exists>name ix ik r. (name, ix) \<in> set (indexes st) \<and> ix_unique ix \<and>
        key_of (ix_keyPath ix) v = Some ik \<and> r \<in> set (records st) \<and>
        key_of (keyPath st) r \<noteq> Some k \<and> key_of (ix_keyPath ix) r = Some ik)"
  unfolding unique_violation_def list_ex_iff
  by (fastforce split: option.splits)

lemma put_idem:
  assumes "put st v = Inr st'"
  shows "put st' v = Inr st'"
proof -
  from assms obtain k where k: "key_of (keyPath st) v = Some k"
    and nv: "\<not> unique_violation st k v"
    and st': "st' = st\<lparr>records := put_record (keyPath st) k v (records st)\<rparr>"
    by (auto simp: put_def split: option.splits if_splits)
  have "\<not> unique_violation st' k v"
  proof
    assume "unique_violation st' k v"
    then obtain name ix ik r where ix: "(name, ix) \<in> set (indexes st)" "ix_unique ix"
      and ik: "key_of (ix_keyPath ix) v = Some ik"
      and r: "r \<in> set (put_record (keyPath st) k v (records st))"
             "key_of (keyPath st) r \<noteq> Some k" "key_of (ix_keyPath ix) r = Some ik"
      unfolding unique_violation_iff st' by auto
    from r(1) set_put_record have "r = v \<or> r \<in> set (records st)" by blast
    with r(2) k have "r \<in> set (records st)" by auto
    with ix ik r(2,3) have "unique_violation st k v"
      unfolding unique_violation_iff by blast
    with nv show False by simp
  qed
  with k st' show ?thesis
    by (simp add: put_def put_record_idem)
qed

lemma no_violation_own_key:
  assumes "indexes st = [(name, \<lparr>ix_keyPath = keyPath st, ix_unique = u\<rparr>)]"
    and "key_of (keyPath st) v = Some k"
  shows "\<not> unique_violation st k v"
  using assms unfolding unique_violation_iff by auto

lemma put_blob:
  assumes "state_store_ok st"
  shows "put st (blob s) =
           Inr (st\<lparr>records := put_record ''id'' (JNum (Num 1)) (blob s) (records st)\<rparr>)"
proof -
  from assms have kp: "keyPath st = ''id''"
    and ix: "indexes st = [(''by_id'', \<lparr>ix_keyPath = keyPath st, ix_unique = True\<rparr>)]"
    by (simp_all add: state_store_ok_def)
  have k: "key_of (keyPath st) (blob s) = Some (JNum (Num 1))"
    by (simp add: kp key_of_blob)
  from no_violation_own_key [OF ix k] k kp show ?thesis
    by (simp add: put_def)
qed

lemma state_store_ok_put:
  assumes "state_store_ok st"
  shows "state_store_ok (st\<lparr>records := put_record ''id'' (JNum (Num 1)) (blob s) (records st)\<rparr>)"
  using assms by (simp add: state_store_ok_def distinct_put_record key_of_blob)

lemma state_store_ok_fresh: "state_store_ok (createIndex ''by_id'' ''id'' True (createObjectStore ''id''))"
  by (simp add: state_store_ok_def createIndex_def createObjectStore_def)


lemma open_request_store:
  assumes "state_db_ok w"
  obtains d st where "indexedDB (open_request w) ''state'' = Some d" "d ''state'' = Some st"
    "state_store_ok st"
    "filter (\<lambda>r. key_of ''id'' r = Some (JNum (Num 1))) (records st) = persisted w"
proof (cases "indexedDB w ''state''")
  case None
  then show ?thesis
    using that [of "onupgradeneeded Map.empty" "createIndex ''by_id'' ''id'' True (createObjectStore ''id'')"]
    by (simp add: open_request_def onupgradeneeded_def state_store_ok_fresh persisted_def)
       (simp add: createIndex_def createObjectStore_def)
next
  case (Some d)
  with assms obtain st where "d ''state'' = Some st" "state_store_ok st"
    by (auto simp: state_db_ok_def split: option.splits)
  with Some show ?thesis
    using that [of d st] by (simp add: open_request_def persisted_def state_store_ok_def)
qed

lemma open_request_fields [simp]:
  "states (open_request w) = states w" "base_state (open_request w) = base_state w"
  "temp_file (open_request w) = temp_file w" "trace (open_request w) = trace w"
  by (simp_all add: open_request_def split: option.splits)

lemma emit_fields [simp]:
  "states (emit e w) = states w" "base_state (emit e w) = base_state w"
  "temp_file (emit e w) = temp_file w" "trace (emit e w) = trace w @ [e]"
  "indexedDB (emit e w) = indexedDB w"
  by (simp_all add: emit_def)

lemma state_db_ok_emit [simp]: "state_db_ok (emit e w) = state_db_ok w"
  by (simp add: state_db_ok_def)

lemma persisted_emit [simp]: "persisted (emit e w) = persisted w"
  by (simp add: persisted_def)

lemma saveState_result:
  assumes "state_db_ok w"
  obtains w1 d st where "saveState callback w = store_oncomplete callback w1"
    "states w1 = states w" "base_state w1 = base_state w" "temp_file w1 = temp_file w"
    "trace w1 = trace w @ [ConsoleLog (JStr ''Starting save!'')]"
    "indexedDB w1 ''state'' = Some d" "d ''state'' = Some st" "state_store_ok st"
    "persisted w1 = [blob (states w)]"
proof -
  let ?w0 = "emit (ConsoleLog (JStr ''Starting save!'')) w"
  from assms have "state_db_ok ?w0" by simp
  then obtain d st where d: "indexedDB (open_request ?w0) ''state'' = Some d"
    and st: "d ''state'' = Some st" and ok: "state_store_ok st"
    by (rule open_request_store)
  let ?st' = "st\<lparr>records := put_record ''id'' (JNum (Num 1)) (blob (states w)) (records st)\<rparr>"
  let ?w1 = "commit ''state'' ''state'' ?st' (open_request ?w0)"
  have tx: "transaction ''state'' ''state'' (open_request ?w0) = Inr st"
    by (simp add: transaction_def d st)
  have "saveState callback w = store_oncomplete callback ?w1"
    using put_blob [OF ok, of "states w"]
    by (simp add: saveState_def db_def store_def tx blob_def)
  moreover have "indexedDB ?w1 ''state'' = Some (d(''state'' \<mapsto> ?st'))"
    by (simp add: commit_def d)
  moreover have "state_store_ok ?st'" by (rule state_store_ok_put [OF ok])
  moreover have "persisted ?w1 = [blob (states w)]"
    using ok by (simp add: persisted_def commit_def d state_store_ok_def filter_put_record key_of_blob)
  moreover have "states ?w1 = states w" "base_state ?w1 = base_state w"
    "temp_file ?w1 = temp_file w" "trace ?w1 = trace w @ [ConsoleLog (JStr ''Starting save!'')]"
    by (simp_all add: commit_def d)
  ultimately show ?thesis using that [of ?w1 "d(''state'' \<mapsto> ?st')" ?st'] by simp
qed

lemma find_as_filter:
  "find P xs = (case filter P xs of [] \<Rightarrow> None | x # ys \<Rightarrow> Some x)"
  by (induction xs) auto

lemma loadState_result:
  assumes "state_db_ok w"
  shows "loadState callback w =
           load_onsuccess (case persisted w of [] \<Rightarrow> JUndefined | r # rs \<Rightarrow> r) callback (open_request w)"
proof -
  from assms obtain d st where d: "indexedDB (open_request w) ''state'' = Some d"
    and st: "d ''state'' = Some st" and ok: "state_store_ok st"
    and p: "filter (\<lambda>r. key_of ''id'' r = Some (JNum (Num 1))) (records st) = persisted w"
    by (rule open_request_store)
  have tx: "transaction ''state'' ''state'' (open_request w) = Inr st"
    by (simp add: transaction_def d st)
  from ok have ix: "index st ''by_id'' = Inr \<lparr>ix_keyPath = ''id'', ix_unique = True\<rparr>"
    by (simp add: index_def state_store_ok_def)
  have "index_get st \<lparr>ix_keyPath = ''id'', ix_unique = True\<rparr> (JNum (Num 1)) =
          (case persisted w of [] \<Rightarrow> JUndefined | r # rs \<Rightarrow> r)"
    by (simp add: index_get_def find_as_filter p split: list.splits)
  then show ?thesis
    by (simp add: loadState_def db_def load_def tx ix)
qed

lemma persisted_record:
  assumes "persisted w = r # rs"
  obtains ps where "r = JObj ps"
proof -
  from assms have "r \<in> set (persisted w)" by simp
  then obtain kp where "key_of kp r = Some (JNum (Num 1))"
    by (auto simp: persisted_def split: option.splits)
  then show ?thesis using that
    by (cases r) (simp_all add: key_of_def)
qed

lemma module_init_fields [simp]:
  "indexedDB (module_init idb) = idb" "trace (module_init idb) = []"
  by (simp_all add: module_init_def Let_def)

section \<open>Facts about saving\<close>

lemma store_oncomplete_fields [simp]:
  "states (fst (store_oncomplete callback w)) = states w"
  "base_state (fst (store_oncomplete callback w)) = base_state w"
  "temp_file (fst (store_oncomplete callback w)) = temp_file w"
  "indexedDB (fst (store_oncomplete callback w)) = indexedDB w"
  by (cases callback; simp add: store_oncomplete_def)+

lemma store_cases:
  obtains (failed) e where "store conn callback w = (w, Some e)"
  | (written) d st st' where "indexedDB w conn = Some d" "d ''state'' = Some st"
      "put st (blob (states w)) = Inr st'"
      "store conn callback w =
         store_oncomplete callback (w\<lparr>indexedDB := (indexedDB w)(conn \<mapsto> d(''state'' \<mapsto> st'))\<rparr>)"
proof (cases "transaction conn ''state'' w")
  case (Inl e)
  then show ?thesis using failed by (simp add: store_def)
next
  case (Inr st)
  then obtain d where d: "indexedDB w conn = Some d" "d ''state'' = Some st"
    by (auto simp: transaction_def split: option.splits)
  show ?thesis
  proof (cases "put st (blob (states w))")
    case (Inl e)
    then show ?thesis using failed Inr by (simp add: store_def blob_def)
  next
    case (Inr st')
    then show ?thesis using written [OF d Inr] \<open>transaction conn ''state'' w = Inr st\<close> d
      by (simp add: store_def blob_def commit_def)
  qed
qed

lemma open_request_some: "\<exists>d. indexedDB (open_request w) ''state'' = Some d"
  by (simp add: open_request_def split: option.splits)

lemma saveState_frame_aux:
  "states (fst (saveState callback w)) = states w \<and>
   base_state (fst (saveState callback w)) = base_state w \<and>
   temp_file (fst (saveState callback w)) = temp_file w"
proof -
  let ?w = "open_request (emit (ConsoleLog (JStr ''Starting save!'')) w)"
  have s: "saveState callback w = store ''state'' callback ?w"
    by (simp add: saveState_def db_def)
  show ?thesis
    by (cases rule: store_cases [of "''state''" callback ?w]) (simp_all add: s)
qed

lemma store_written:
  assumes "transaction conn ''state'' w = Inr st" and "put st (blob (states w)) = Inr st'"
  shows "store conn c w = store_oncomplete c (commit conn ''state'' st' w)"
  using assms by (simp add: store_def blob_def)

lemma store_idb_cong:
  assumes "indexedDB w = indexedDB v" and "states w = states v"
  shows "indexedDB (fst (store conn c w)) = indexedDB (fst (store conn c' v))"
  using assms
  by (simp add: store_def transaction_def commit_def split: option.splits sum.splits)

lemma store_idb_idem:
  "indexedDB (fst (store conn c (fst (store conn c' w)))) = indexedDB (fst (store conn c' w))"
proof (cases rule: store_cases [of conn c' w])
  case (failed e)
  then show ?thesis using store_idb_cong [of w w conn c c'] by simp
next
  case (written d st st')
  let ?w1 = "fst (store conn c' w)"
  from written have i1: "indexedDB ?w1 = (indexedDB w)(conn \<mapsto> d(''state'' \<mapsto> st'))"
    and s1: "states ?w1 = states w" by simp_all
  have tx: "transaction conn ''state'' ?w1 = Inr st'"
    by (simp add: transaction_def i1)
  have "put st' (blob (states ?w1)) = Inr st'"
    using put_idem [OF written(3)] s1 by simp
  then have "store conn c ?w1 = store_oncomplete c (commit conn ''state'' st' ?w1)"
    by (rule store_written [OF tx])
  then show ?thesis by (simp add: commit_def i1)
qed

lemma store_keeps_database:
  assumes "indexedDB w ''state'' = Some d"
  shows "\<exists>d'. indexedDB (fst (store ''state'' c w)) ''state'' = Some d'"
  using assms by (cases rule: store_cases [of "''state''" c w]) simp_all

lemma saveState_idb_idem:
  "indexedDB (fst (saveState c2 (fst (saveState c1 w)))) = indexedDB (fst (saveState c1 w))"
proof -
  let ?e = "ConsoleLog (JStr ''Starting save!'')"
  let ?w1 = "fst (saveState c1 w)"
  have s1: "saveState c1 w = store ''state'' c1 (open_request (emit ?e w))"
    by (simp add: saveState_def db_def)
  obtain d where "indexedDB (open_request (emit ?e w)) ''state'' = Some d"
    using open_request_some by blast
  then obtain d' where "indexedDB ?w1 ''state'' = Some d'"
    unfolding s1 using store_keeps_database by blast
  then have "open_request (emit ?e ?w1) = emit ?e ?w1"
    by (simp add: open_request_def)
  then have "saveState c2 ?w1 = store ''state'' c2 (emit ?e ?w1)"
    by (simp add: saveState_def db_def)
  then have "indexedDB (fst (saveState c2 ?w1)) = indexedDB (fst (store ''state'' c2 ?w1))"
    using store_idb_cong [of "emit ?e ?w1" ?w1 "''state''" c2 c2] by simp
  also have "\<dots> = indexedDB ?w1"
    unfolding s1 by (rule store_idb_idem)
  finally show ?thesis .
qed

lemma state_db_ok_saveState:
  assumes "state_db_ok w"
  shows "state_db_ok (fst (saveState callback w))"
proof -
  from assms obtain w1 d st where "saveState callback w = store_oncomplete callback w1"
    "indexedDB w1 ''state'' = Some d" "d ''state'' = Some st" "state_store_ok st"
    by (rule saveState_result)
  then show ?thesis by (simp add: state_db_ok_def)
qed

section \<open>Facts about loading\<close>

lemma restored_record:
  assumes "persisted w = r # rs"
  shows "r \<noteq> JUndefined \<and> get_prop r ''state'' = Inr (restored w)"
proof -
  from assms obtain ps where "r = JObj ps" by (rule persisted_record)
  with assms show ?thesis by (simp add: restored_def)
qed

lemma loadState_outcome:
  assumes "state_db_ok w"
  shows "loadState callback w =
           (case persisted w of
              [] \<Rightarrow> invoke callback (open_request w)
            | r # rs \<Rightarrow> invoke callback
                 (emit (ConsoleLog (restored w)) ((open_request w)\<lparr>states := restored w\<rparr>)))"
proof (cases "persisted w")
  case Nil
  with assms show ?thesis by (simp add: loadState_result load_onsuccess_def)
next
  case (Cons r rs)
  with assms restored_record [OF Cons] show ?thesis
    by (simp add: loadState_result load_onsuccess_def)
qed

lemma invoke_indexedDB [simp]: "indexedDB (fst (invoke callback w)) = indexedDB w"
  by (cases callback) simp_all

lemma state_db_ok_loadState:
  assumes "state_db_ok w"
  shows "state_db_ok (fst (loadState callback w))"
proof -
  from assms obtain d st where "indexedDB (open_request w) ''state'' = Some d"
    "d ''state'' = Some st" "state_store_ok st"
    by (rule open_request_store)
  then show ?thesis
    by (simp add: loadState_outcome [OF assms] state_db_ok_def split: list.splits)
qed

section \<open>Facts about the panel handlers\<close>

lemma perform_fields [simp]:
  "ready (perform c p) = ready p" "calls (perform c p) = calls p @ [c]"
  by (simp_all add: perform_def)

lemma on_update_ready:
  assumes "ready p" and "js_index sts cid = Inr s" and "get_prop s ''moves'' = Inr moves"
  shows "on_update cid sts vp p =
           (\<lparr>ready = True,
             calls = calls p @
               [Call_getZoom, Call_getPan, Call_destroy, Call_clear, Call_draw moves,
                Call_svgPanZoom \<lparr>fit = False, zoomEnabled = True, center = False,
                                 controlIconsEnabled = True\<rparr>] @
               (if getZoom vp = NaN then [Call_reset]
                else [Call_zoom (Some (getZoom vp)), Call_pan (Some (getPan vp))])\<rparr>, None)"
  using assms by (simp add: on_update_def perform_def)

lemma on_resize_ready:
  assumes "ready p"
  shows "on_resize cont vp p =
           \<lparr>ready = True,
            calls = calls p @
               [Call_getZoom, Call_getPan, Call_destroy, Call_size (width cont) (height cont),
                Call_svgPanZoom \<lparr>fit = False, zoomEnabled = True, center = False,
                                 controlIconsEnabled = True\<rparr>] @
               (if getZoom vp = NaN then [Call_reset]
                else [Call_zoom (Some (getZoom vp)), Call_pan (Some (getPan vp))])\<rparr>"
  using assms by (simp add: on_resize_def perform_def)

lemma on_update_not_ready:
  assumes "\<not> ready p"
  shows "on_update cid sts vp p =
           (case js_index sts cid of
              Inl e \<Rightarrow> (\<lparr>ready = True, calls = calls p @ [Call_clear]\<rparr>, Some e)
            | Inr s \<Rightarrow>
                (case get_prop s ''moves'' of
                   Inl e \<Rightarrow> (\<lparr>ready = True, calls = calls p @ [Call_clear]\<rparr>, Some e)
                 | Inr moves \<Rightarrow>
                     (\<lparr>ready = True,
                       calls = calls p @
                         [Call_clear, Call_draw moves,
                          Call_svgPanZoom \<lparr>fit = False, zoomEnabled = True, center = False,
                                           controlIconsEnabled = True\<rparr>,
                          Call_reset]\<rparr>, None)))"
  using assms by (simp add: on_update_def perform_def split: sum.splits)


section \<open>The properties\<close>

subsection \<open>Module initialisation\<close>

text \<open>
  Claim C5 reads: a freshly constructed registry holds exactly one element, structurally
  equal to \<open>base_state\<close>, with the same fields and values. On a browser with no
  database, \<open>base_state\<close> has the own property \<open>test_results\<close> (with value
  \<open>undefined\<close>) and the one element of \<open>states\<close>, the copy made by \<open>jQuery.extend\<close>,
  has not: the two objects differ in their fields.
\<close>

theorem fresh_registry_counterexample:
  "hasOwnProperty (base_state (module_init Map.empty)) ''test_results'' \<and>
   \<not> hasOwnProperty (first_state (module_init Map.empty)) ''test_results'' \<and>
   first_state (module_init Map.empty) \<noteq> base_state (module_init Map.empty) \<and>
   states (module_init Map.empty) \<noteq> JArr [base_state (module_init Map.empty)]"
  by (simp add: module_init_def Let_def first_state_def jQuery_extend_def)

text \<open>
  Claim C5, as amended: for every freshly constructed registry, \<open>states\<close> has exactly one
  element, the shallow copy \<open>jQuery.extend({}, base_state)\<close>. Every property read on it
  gives the value the same read gives on \<open>base_state\<close>, and its own properties are those
  of \<open>base_state\<close> except \<open>test_results\<close>, which is not copied because its value is
  \<open>undefined\<close>.
\<close>

theorem fresh_registry_one_copy:
  "states (module_init idb) = JArr [first_state (module_init idb)] \<and>
   (\<forall>name. get_prop (first_state (module_init idb)) name =
            get_prop (base_state (module_init idb)) name) \<and>
   (\<forall>name. hasOwnProperty (first_state (module_init idb)) name \<longleftrightarrow>
            hasOwnProperty (base_state (module_init idb)) name \<and> name \<noteq> ''test_results'')"
  by (auto simp: module_init_def Let_def first_state_def jQuery_extend_def)

subsection \<open>Saving and loading\<close>

text \<open>
  Claim C1 (round trip): for every value of \<open>states\<close>, saved on a store that is empty (or
  holds an earlier blob), \<open>saveState\<close> completes, and \<open>loadState\<close> on a fresh registry
  over the store as saved completes and leaves in \<open>states\<close> the value that was saved: the
  load replaces the whole in-memory list by the persisted blob.
\<close>

theorem saveState_loadState_round_trip:
  assumes "state_db_ok w"
  shows "snd (saveState (CbFunction f) w) = None \<and>
         snd (loadState (CbFunction g) (module_init (indexedDB (fst (saveState (CbFunction f) w))))) = None \<and>
         states (fst (loadState (CbFunction g) (module_init (indexedDB (fst (saveState (CbFunction f) w))))))
           = states w"
proof -
  from assms obtain w1 d st where s: "saveState (CbFunction f) w = store_oncomplete (CbFunction f) w1"
    and d: "indexedDB w1 ''state'' = Some d" "d ''state'' = Some st" "state_store_ok st"
    and p: "persisted w1 = [blob (states w)]"
    by (rule saveState_result)
  let ?r = "module_init (indexedDB w1)"
  have i: "indexedDB (fst (saveState (CbFunction f) w)) = indexedDB w1"
    by (simp add: s)
  have c: "snd (saveState (CbFunction f) w) = None"
    by (simp add: s store_oncomplete_def)
  have ok: "state_db_ok ?r" using d by (simp add: state_db_ok_def)
  have pr: "persisted ?r = [blob (states w)]"
    using p by (simp add: persisted_def)
  have "loadState (CbFunction g) ?r =
          (emit (Invoke g) (emit (ConsoleLog (states w)) ((open_request ?r)\<lparr>states := states w\<rparr>)), None)"
    by (simp add: loadState_result [OF ok] pr load_onsuccess_def blob_def)
  then show ?thesis by (simp add: i c)
qed

theorem saveState_loadState_round_trip_witness:
  "state_db_ok ((module_init Map.empty)\<lparr>states := JArr [JStr ''session'']\<rparr>) \<and>
   states (fst (loadState (CbFunction 2) (module_init (indexedDB (fst (saveState (CbFunction 1)
      ((module_init Map.empty)\<lparr>states := JArr [JStr ''session'']\<rparr>)))))))
     = JArr [JStr ''session'']"
  using saveState_loadState_round_trip
          [of "(module_init Map.empty)\<lparr>states := JArr [JStr ''session'']\<rparr>" 1 2]
  by (simp add: state_db_ok_def)

text \<open>
  Claim C3: when the store holds no record under the fixed key, \<open>loadState\<close> leaves
  \<open>states\<close> as it was and still calls the supplied callback, exactly once: the call is
  the one event that the load adds to the trace.
\<close>

theorem loadState_nothing_persisted:
  assumes "state_db_ok w" and "persisted w = []"
  shows "snd (loadState (CbFunction f) w) = None \<and>
         states (fst (loadState (CbFunction f) w)) = states w \<and>
         trace (fst (loadState (CbFunction f) w)) = trace w @ [Invoke f]"
  using assms by (simp add: loadState_result load_onsuccess_def)

theorem loadState_nothing_persisted_witness:
  "state_db_ok (module_init Map.empty) \<and> persisted (module_init Map.empty) = [] \<and>
   snd (loadState (CbFunction 5) (module_init Map.empty)) = None \<and>
   states (fst (loadState (CbFunction 5) (module_init Map.empty))) = states (module_init Map.empty) \<and>
   trace (fst (loadState (CbFunction 5) (module_init Map.empty))) = [Invoke 5]"
  using loadState_nothing_persisted [of "module_init Map.empty" 5]
  by (simp add: state_db_ok_def persisted_def)

text \<open>
  Claim C4: \<open>saveState\<close> leaves a database \<open>state\<close> with an object store \<open>state\<close>
  keyed by \<open>id\<close> and carrying the unique index \<open>by_id\<close> on \<open>id\<close>. Whatever was
  persisted before, the records under key 1 are then the single record
  \<open>{id: 1, state: states}\<close> holding the entire list. A callback function is called once,
  as the last step, in a world \<open>w1\<close> where the record is already written and
  \<open>Save complete!\<close> has been logged.
\<close>

theorem saveState_writes_whole_list:
  assumes "state_db_ok w"
  shows "(\<exists>d st. indexedDB (fst (saveState callback w)) ''state'' = Some d \<and>
            d ''state'' = Some st \<and> keyPath st = ''id'' \<and>
            index st ''by_id'' = Inr \<lparr>ix_keyPath = ''id'', ix_unique = True\<rparr>) \<and>
         persisted (fst (saveState callback w)) =
           [JObj [(''id'', JNum (Num 1)), (''state'', states w)]] \<and>
         (\<exists>w1. saveState (CbFunction f) w = (emit (Invoke f) w1, None) \<and>
            persisted w1 = [JObj [(''id'', JNum (Num 1)), (''state'', states w)]] \<and>
            trace w1 = trace w @ [ConsoleLog (JStr ''Starting save!''),
                                  ConsoleLog (JStr ''Save complete!''),
                                  ConsoleLogCb (CbFunction f)])"
proof -
  have a: "(\<exists>d st. indexedDB (fst (saveState c w)) ''state'' = Some d \<and>
            d ''state'' = Some st \<and> keyPath st = ''id'' \<and>
            index st ''by_id'' = Inr \<lparr>ix_keyPath = ''id'', ix_unique = True\<rparr>) \<and>
         persisted (fst (saveState c w)) = [blob (states w)]" for c
  proof -
    from assms obtain w1 d st where s: "saveState c w = store_oncomplete c w1"
      and d: "indexedDB w1 ''state'' = Some d" "d ''state'' = Some st" "state_store_ok st"
      and p: "persisted w1 = [blob (states w)]"
      by (rule saveState_result)
    have i: "indexedDB (fst (saveState c w)) = indexedDB w1" by (simp add: s)
    then have "persisted (fst (saveState c w)) = persisted w1" by (simp add: persisted_def)
    with d p i show ?thesis by (auto simp: state_store_ok_def index_def)
  qed
  from assms obtain w1 where s: "saveState (CbFunction f) w = store_oncomplete (CbFunction f) w1"
    and t: "trace w1 = trace w @ [ConsoleLog (JStr ''Starting save!'')]"
    and p: "persisted w1 = [blob (states w)]"
    by (rule saveState_result)
  let ?w2 = "emit (ConsoleLogCb (CbFunction f)) (emit (ConsoleLog (JStr ''Save complete!'')) w1)"
  have "saveState (CbFunction f) w = (emit (Invoke f) ?w2, None)"
    by (simp add: s store_oncomplete_def)
  moreover have "persisted ?w2 = [blob (states w)]" using p by simp
  moreover have "trace ?w2 = trace w @ [ConsoleLog (JStr ''Starting save!''),
                                  ConsoleLog (JStr ''Save complete!''),
                                  ConsoleLogCb (CbFunction f)]" using t by simp
  ultimately have "\<exists>w1. saveState (CbFunction f) w = (emit (Invoke f) w1, None) \<and>
            persisted w1 = [blob (states w)] \<and>
            trace w1 = trace w @ [ConsoleLog (JStr ''Starting save!''),
                                  ConsoleLog (JStr ''Save complete!''),
                                  ConsoleLogCb (CbFunction f)]" by blast
  with a [of callback] show ?thesis by (simp add: blob_def)
qed

theorem saveState_writes_whole_list_witness:
  "state_db_ok (module_init Map.empty) \<and>
   persisted (fst (saveState (CbFunction 1) (module_init Map.empty))) =
     [JObj [(''id'', JNum (Num 1)), (''state'', states (module_init Map.empty))]] \<and>
   trace (fst (saveState (CbFunction 1) (module_init Map.empty))) =
     [ConsoleLog (JStr ''Starting save!''), ConsoleLog (JStr ''Save complete!''),
      ConsoleLogCb (CbFunction 1), Invoke 1]"
  using saveState_writes_whole_list [of "module_init Map.empty" "CbFunction 1" 1]
  by (auto simp: state_db_ok_def)

text \<open>
  Claim C8: a second \<open>saveState\<close> with \<open>states\<close> unchanged changes nothing: the
  databases, the persisted blob and the module's variables after the second save are
  those after the first. (Only the console output grows.)
\<close>

theorem saveState_idempotent:
  "indexedDB (fst (saveState c2 (fst (saveState c1 w)))) = indexedDB (fst (saveState c1 w)) \<and>
   persisted (fst (saveState c2 (fst (saveState c1 w)))) = persisted (fst (saveState c1 w)) \<and>
   states (fst (saveState c2 (fst (saveState c1 w)))) = states (fst (saveState c1 w)) \<and>
   base_state (fst (saveState c2 (fst (saveState c1 w)))) = base_state (fst (saveState c1 w)) \<and>
   temp_file (fst (saveState c2 (fst (saveState c1 w)))) = temp_file (fst (saveState c1 w))"
proof -
  have "indexedDB (fst (saveState c2 (fst (saveState c1 w)))) = indexedDB (fst (saveState c1 w))"
    by (rule saveState_idb_idem)
  moreover from this
  have "persisted (fst (saveState c2 (fst (saveState c1 w)))) = persisted (fst (saveState c1 w))"
    by (simp add: persisted_def)
  ultimately show ?thesis
    using saveState_frame_aux [of c2 "fst (saveState c1 w)"] by simp
qed

text \<open>
  Claim C9: \<open>saveState\<close> only reads the registry. When it has finished, with or without
  an error, \<open>states\<close>, \<open>base_state\<close> and \<open>temp_file\<close> have the values they had at the
  call; the callback's own body is not part of \<open>saveState\<close>, so these are also the values
  the callback finds.
\<close>

theorem saveState_only_reads_registry:
  "states (fst (saveState callback w)) = states w \<and>
   base_state (fst (saveState callback w)) = base_state w \<and>
   temp_file (fst (saveState callback w)) = temp_file w"
  by (rule saveState_frame_aux)

text \<open>
  Claim C10: the callback is optional for \<open>saveState\<close> and mandatory for \<open>loadState\<close>.
  \<open>saveState\<close> without a callback writes the record, logs its two messages, calls
  nothing and ends without an error. \<open>loadState\<close> calls its callback unconditionally:
  without one it ends in a TypeError, after the load step (\<open>states\<close> already holds the
  restored value); with a function it ends without an error and the call is the last event.
\<close>

theorem callback_optional_to_save_mandatory_to_load:
  assumes "state_db_ok w"
  shows "snd (saveState CbUndefined w) = None \<and>
         persisted (fst (saveState CbUndefined w)) =
           [JObj [(''id'', JNum (Num 1)), (''state'', states w)]] \<and>
         trace (fst (saveState CbUndefined w)) =
           trace w @ [ConsoleLog (JStr ''Starting save!''), ConsoleLog (JStr ''Save complete!'')] \<and>
         snd (loadState CbUndefined w) = Some TypeError \<and>
         states (fst (loadState CbUndefined w)) = restored w \<and>
         snd (loadState (CbFunction f) w) = None \<and>
         states (fst (loadState (CbFunction f) w)) = restored w \<and>
         last (trace (fst (loadState (CbFunction f) w))) = Invoke f"
proof -
  from assms obtain w1 where s: "saveState CbUndefined w = store_oncomplete CbUndefined w1"
    and t: "trace w1 = trace w @ [ConsoleLog (JStr ''Starting save!'')]"
    and p: "persisted w1 = [blob (states w)]"
    by (rule saveState_result)
  have sv: "saveState CbUndefined w = (emit (ConsoleLog (JStr ''Save complete!'')) w1, None)"
    by (simp add: s store_oncomplete_def)
  have r0: "persisted w = [] \<Longrightarrow> restored w = states w" by (simp add: restored_def)
  have l: "snd (loadState CbUndefined w) = Some TypeError \<and>
           states (fst (loadState CbUndefined w)) = restored w"
    using r0 by (simp add: loadState_outcome [OF assms] split: list.splits)
  have l': "snd (loadState (CbFunction f) w) = None \<and>
           states (fst (loadState (CbFunction f) w)) = restored w \<and>
           last (trace (fst (loadState (CbFunction f) w))) = Invoke f"
    using r0 by (simp add: loadState_outcome [OF assms] split: list.splits)
  from sv t p l l' show ?thesis by (simp add: blob_def)
qed

theorem callback_optional_to_save_mandatory_to_load_witness:
  "state_db_ok (module_init (indexedDB (fst (saveState CbUndefined
      ((module_init Map.empty)\<lparr>states := JStr ''kept''\<rparr>))))) \<and>
   snd (loadState CbUndefined (module_init (indexedDB (fst (saveState CbUndefined
      ((module_init Map.empty)\<lparr>states := JStr ''kept''\<rparr>)))))) = Some TypeError \<and>
   states (fst (loadState CbUndefined (module_init (indexedDB (fst (saveState CbUndefined
      ((module_init Map.empty)\<lparr>states := JStr ''kept''\<rparr>))))))) = JStr ''kept''"
proof -
  have h: "state_db_ok (module_init (indexedDB (fst (saveState CbUndefined
      ((module_init Map.empty)\<lparr>states := JStr ''kept''\<rparr>)))))"
    by code_simp
  have r: "restored (module_init (indexedDB (fst (saveState CbUndefined
      ((module_init Map.empty)\<lparr>states := JStr ''kept''\<rparr>))))) = JStr ''kept''"
    by code_simp
  show ?thesis
    using h r callback_optional_to_save_mandatory_to_load [OF h] by simp
qed

subsection \<open>The panel\<close>

text \<open>
  Claim C2 reads: in the ready state, \<open>update\<close> and \<open>resize\<close> perform the same pipeline,
  which clears the SVG and redraws it from \<open>states[id].moves\<close>. On a ready panel the
  \<open>resize\<close> handler makes no \<open>clear\<close> and no \<open>draw\<close> call: it sizes the SVG to the
  container instead. The \<open>update\<close> handler, on the same panel, does clear and draw.
\<close>

theorem resize_does_not_redraw_counterexample:
  "ready \<lparr>ready = True, calls = []\<rparr> \<and>
   calls (on_resize \<lparr>width = JNum (Num 800), height = JNum (Num 600)\<rparr>
            \<lparr>getZoom = Num 2, getPan = \<lparr>pan_x = Num 3, pan_y = Num 4\<rparr>\<rparr>
            \<lparr>ready = True, calls = []\<rparr>) =
     [Call_getZoom, Call_getPan, Call_destroy,
      Call_size (JNum (Num 800)) (JNum (Num 600)),
      Call_svgPanZoom \<lparr>fit = False, zoomEnabled = True, center = False,
                       controlIconsEnabled = True\<rparr>,
      Call_zoom (Some (Num 2)), Call_pan (Some \<lparr>pan_x = Num 3, pan_y = Num 4\<rparr>)] \<and>
   Call_clear \<notin> set (calls (on_resize \<lparr>width = JNum (Num 800), height = JNum (Num 600)\<rparr>
            \<lparr>getZoom = Num 2, getPan = \<lparr>pan_x = Num 3, pan_y = Num 4\<rparr>\<rparr>
            \<lparr>ready = True, calls = []\<rparr>)) \<and>
   calls (fst (on_update 0 (JArr [JObj [(''moves'', JArr [JStr ''forward''])]])
            \<lparr>getZoom = Num 2, getPan = \<lparr>pan_x = Num 3, pan_y = Num 4\<rparr>\<rparr>
            \<lparr>ready = True, calls = []\<rparr>)) =
     [Call_getZoom, Call_getPan, Call_destroy, Call_clear,
      Call_draw (JArr [JStr ''forward'']),
      Call_svgPanZoom \<lparr>fit = False, zoomEnabled = True, center = False,
                       controlIconsEnabled = True\<rparr>,
      Call_zoom (Some (Num 2)), Call_pan (Some \<lparr>pan_x = Num 3, pan_y = Num 4\<rparr>)]"
  by (simp add: on_resize_def on_update_def perform_def)

text \<open>
  Claim C2, as amended: on a ready panel, every \<open>update\<close> event (with \<open>states[id]\<close>
  present) captures the current zoom and pan, destroys the old viewport controller,
  clears the SVG and redraws it from \<open>states[id].moves\<close>, attaches a new viewport
  controller and restores the captured zoom and pan (resets instead when the captured
  zoom is NaN). Every \<open>resize\<close> event makes the same calls except that, in place of
  clearing and redrawing, it sizes the SVG to the container's width and height.
\<close>

theorem update_redraws_resize_resizes:
  assumes "ready p" and "js_index sts cid = Inr s" and "get_prop s ''moves'' = Inr moves"
  shows "on_update cid sts vp p =
           (\<lparr>ready = True,
             calls = calls p @
               [Call_getZoom, Call_getPan, Call_destroy, Call_clear, Call_draw moves,
                Call_svgPanZoom \<lparr>fit = False, zoomEnabled = True, center = False,
                                 controlIconsEnabled = True\<rparr>] @
               (if getZoom vp = NaN then [Call_reset]
                else [Call_zoom (Some (getZoom vp)), Call_pan (Some (getPan vp))])\<rparr>, None) \<and>
         on_resize cont vp p =
           \<lparr>ready = True,
            calls = calls p @
               [Call_getZoom, Call_getPan, Call_destroy, Call_size (width cont) (height cont),
                Call_svgPanZoom \<lparr>fit = False, zoomEnabled = True, center = False,
                                 controlIconsEnabled = True\<rparr>] @
               (if getZoom vp = NaN then [Call_reset]
                else [Call_zoom (Some (getZoom vp)), Call_pan (Some (getPan vp))])\<rparr>"
  using on_update_ready [OF assms] on_resize_ready [OF assms(1)] by simp

theorem update_redraws_resize_resizes_witness:
  "ready \<lparr>ready = True, calls = [Call_html]\<rparr> \<and>
   js_index (JArr [JObj [(''moves'', JArr [JStr ''forward''])]]) 0 =
     Inr (JObj [(''moves'', JArr [JStr ''forward''])]) \<and>
   get_prop (JObj [(''moves'', JArr [JStr ''forward''])]) ''moves'' = Inr (JArr [JStr ''forward'']) \<and>
   calls (fst (on_update 0 (JArr [JObj [(''moves'', JArr [JStr ''forward''])]])
            \<lparr>getZoom = Num 2, getPan = \<lparr>pan_x = Num 3, pan_y = Num 4\<rparr>\<rparr>
            \<lparr>ready = True, calls = [Call_html]\<rparr>)) =
     [Call_html, Call_getZoom, Call_getPan, Call_destroy, Call_clear,
      Call_draw (JArr [JStr ''forward'']),
      Call_svgPanZoom \<lparr>fit = False, zoomEnabled = True, center = False,
                       controlIconsEnabled = True\<rparr>,
      Call_zoom (Some (Num 2)), Call_pan (Some \<lparr>pan_x = Num 3, pan_y = Num 4\<rparr>)]"
proof -
  have h1: "ready \<lparr>ready = True, calls = [Call_html]\<rparr>" by simp
  have h2: "js_index (JArr [JObj [(''moves'', JArr [JStr ''forward''])]]) 0 =
     Inr (JObj [(''moves'', JArr [JStr ''forward''])])" by simp
  have h3: "get_prop (JObj [(''moves'', JArr [JStr ''forward''])]) ''moves'' =
     Inr (JArr [JStr ''forward''])" by simp
  show ?thesis
    using h1 h2 h3
      update_redraws_resize_resizes [OF h1 h2 h3,
        of "\<lparr>getZoom = Num 2, getPan = \<lparr>pan_x = Num 3, pan_y = Num 4\<rparr>\<rparr>"]
    by simp
qed

text \<open>
  Claim C6: on a panel that is not ready, the \<open>update\<close> handler does not read the zoom or
  the pan of a viewport controller and destroys none: none of the three calls is among
  those it makes (the earlier calls are kept as they are), and its result does not depend
  on what a controller would have answered.
\<close>

theorem first_update_reads_no_viewport:
  assumes "\<not> ready p"
  shows "on_update cid sts vp p = on_update cid sts vp' p \<and>
         take (length (calls p)) (calls (fst (on_update cid sts vp p))) = calls p \<and>
         Call_getZoom \<notin> set (new_calls p (fst (on_update cid sts vp p))) \<and>
         Call_getPan \<notin> set (new_calls p (fst (on_update cid sts vp p))) \<and>
         Call_destroy \<notin> set (new_calls p (fst (on_update cid sts vp p)))"
  by (simp add: on_update_not_ready [OF assms] new_calls_def split: sum.splits)

theorem first_update_reads_no_viewport_witness:
  "\<not> ready (register \<lparr>width = JNum (Num 800), height = JNum (Num 600)\<rparr> 0) \<and>
   Call_getZoom \<notin> set (new_calls (register \<lparr>width = JNum (Num 800), height = JNum (Num 600)\<rparr> 0)
      (fst (on_update 0 (JArr [JObj [(''moves'', JArr [])]])
              \<lparr>getZoom = Num 2, getPan = \<lparr>pan_x = Num 3, pan_y = Num 4\<rparr>\<rparr>
              (register \<lparr>width = JNum (Num 800), height = JNum (Num 600)\<rparr> 0))))"
proof -
  have h: "\<not> ready (register \<lparr>width = JNum (Num 800), height = JNum (Num 600)\<rparr> 0)"
    by (simp add: register_def)
  show ?thesis
    using h first_update_reads_no_viewport [OF h, of 0 "JArr [JObj [(''moves'', JArr [])]]"
        "\<lparr>getZoom = Num 2, getPan = \<lparr>pan_x = Num 3, pan_y = Num 4\<rparr>\<rparr>"]
    by simp
qed

text \<open>
  Claim C7: on a ready panel, of the calls that set the framing of the new viewport, a
  redraw whose captured zoom is NaN makes \<open>reset\<close> alone; otherwise it makes \<open>zoom\<close>
  with the captured zoom, then \<open>pan\<close> with the captured pan. This holds for the
  \<open>update\<close> handler and for the \<open>resize\<close> handler.
\<close>

theorem nan_zoom_resets_framing:
  assumes "ready p" and "js_index sts cid = Inr s" and "get_prop s ''moves'' = Inr moves"
  shows "filter sets_framing (new_calls p (fst (on_update cid sts vp p))) =
           (if getZoom vp = NaN then [Call_reset]
            else [Call_zoom (Some (getZoom vp)), Call_pan (Some (getPan vp))]) \<and>
         filter sets_framing (new_calls p (on_resize cont vp p)) =
           (if getZoom vp = NaN then [Call_reset]
            else [Call_zoom (Some (getZoom vp)), Call_pan (Some (getPan vp))])"
  by (simp add: on_update_ready [OF assms] on_resize_ready [OF assms(1)] new_calls_def)

theorem nan_zoom_resets_framing_witness:
  "ready \<lparr>ready = True, calls = [Call_html]\<rparr> \<and>
   js_index (JArr [JObj [(''moves'', JArr [])]]) 0 = Inr (JObj [(''moves'', JArr [])]) \<and>
   get_prop (JObj [(''moves'', JArr [])]) ''moves'' = Inr (JArr []) \<and>
   filter sets_framing (new_calls \<lparr>ready = True, calls = [Call_html]\<rparr>
      (fst (on_update 0 (JArr [JObj [(''moves'', JArr [])]])
              \<lparr>getZoom = NaN, getPan = \<lparr>pan_x = NaN, pan_y = NaN\<rparr>\<rparr>
              \<lparr>ready = True, calls = [Call_html]\<rparr>))) = [Call_reset]"
proof -
  have h1: "ready \<lparr>ready = True, calls = [Call_html]\<rparr>" by simp
  have h2: "js_index (JArr [JObj [(''moves'', JArr [])]]) 0 = Inr (JObj [(''moves'', JArr [])])"
    by simp
  have h3: "get_prop (JObj [(''moves'', JArr [])]) ''moves'' = Inr (JArr [])" by simp
  show ?thesis
    using h1 h2 h3
      nan_zoom_resets_framing [OF h1 h2 h3,
        of "\<lparr>getZoom = NaN, getPan = \<lparr>pan_x = NaN, pan_y = NaN\<rparr>\<rparr>"]
    by simp
qed

end
